theory Spec2Isabelle
  imports Main
begin

section \<open>Line streams and promises\<close>

text \<open>
  Both readers open the file with \<^verbatim>\<open>fs.createReadStream(filePath)\<close>, wrap it in a
  \<^verbatim>\<open>readline\<close> interface and register two listeners, for \<^verbatim>\<open>"line"\<close> and for
  \<^verbatim>\<open>"close"\<close>. What the file system does with a path is an input of the model:
  creating the stream throws, or the interface delivers some lines and then the input
  either ends or emits an \<^verbatim>\<open>"error"\<close> event.
\<close>

datatype input_end = EndOfInput | ErrorEvent

datatype read_stream = ThrowsOnCreate | Delivers "string list" input_end

type_synonym file_system = "string \<Rightarrow> read_stream"

text \<open>
  The outcome of \<^verbatim>\<open>new Promise((resolve, reject) => ...)\<close>: \<open>Unsettled\<close> is the promise
  on which neither \<^verbatim>\<open>resolve\<close> nor \<^verbatim>\<open>reject\<close> is ever called.
\<close>

datatype 'a promise = Resolved 'a | Rejected string | Unsettled

section \<open>getRecordCount\<close>

definition count_line :: "string \<Rightarrow> int \<Rightarrow> int" where
  "count_line row count = count + 1"

definition count_close :: "int \<Rightarrow> int" where
  "count_close count = (if count > 0 then count - 1 else count)"

definition getRecordCount :: "file_system \<Rightarrow> string \<Rightarrow> int promise" where
  "getRecordCount fs filePath =
     (case fs filePath of
        ThrowsOnCreate \<Rightarrow> Rejected (''Failed reading file '' @ filePath)
      | Delivers rows e \<Rightarrow>
          (case e of
             EndOfInput \<Rightarrow> Resolved (count_close (fold count_line rows 0))
           | ErrorEvent \<Rightarrow> Unsettled))"

section \<open>readCSVInBatches\<close>

text \<open>
  \<^verbatim>\<open>papa.parse\<close> comes from the papaparse package; the reader is modelled for any
  parser \<open>papa\<close>, which maps the text to the list \<^verbatim>\<open>data\<close> of its result.
  \<^verbatim>\<open>csvToJson\<close> joins header and line with a line feed and returns \<^verbatim>\<open>data[0]\<close>,
  which is \<^verbatim>\<open>undefined\<close> (here \<open>None\<close>) when \<^verbatim>\<open>data\<close> is empty.
\<close>

definition csvToJson :: "(string \<Rightarrow> 'r list) \<Rightarrow> string \<Rightarrow> string \<Rightarrow> 'r option" where
  "csvToJson papa hdrs csv =
     (case papa (hdrs @ [CHR 0x0A] @ csv) of [] \<Rightarrow> None | json # _ \<Rightarrow> Some json)"

record 'r reader =
  records :: "'r list"
  headers :: string
  recordCount :: int
  rl_closed :: bool

definition reader_init :: "'r reader" where
  "reader_init = \<lparr>records = [], headers = [], recordCount = 0, rl_closed = False\<rparr>"

text \<open>
  The \<^verbatim>\<open>"line"\<close> listener; \<open>rl_closed\<close> records the call of \<^verbatim>\<open>rl.close()\<close>. \<open>start\<close> and
  \<open>batch\<close> are integers, as the callers pass them; \<^verbatim>\<open>headers == ""\<close> compares two strings.
\<close>

definition on_line :: "(string \<Rightarrow> 'r list) \<Rightarrow> int \<Rightarrow> int \<Rightarrow> string \<Rightarrow> 'r reader \<Rightarrow> 'r reader" where
  "on_line papa start batch row s =
     (if headers s = [] then s\<lparr>headers := row\<rparr>
      else
        (let s1 =
           (if recordCount s \<ge> start \<and> recordCount s < start + batch then
              (case csvToJson papa (headers s) row of
                 Some json \<Rightarrow> s\<lparr>records := records s @ [json]\<rparr>
               | None \<Rightarrow> s)
            else if recordCount s \<ge> start + batch then s\<lparr>rl_closed := True\<rparr>
            else s)
         in s1\<lparr>recordCount := recordCount s1 + 1\<rparr>))"

text \<open>The lines are handed to the listener one by one until the interface is closed.\<close>

fun read_lines :: "(string \<Rightarrow> 'r list) \<Rightarrow> int \<Rightarrow> int \<Rightarrow> string list \<Rightarrow> 'r reader \<Rightarrow> 'r reader" where
  "read_lines papa start batch [] s = s"
| "read_lines papa start batch (row # rows) s =
     (if rl_closed s then s
      else read_lines papa start batch rows (on_line papa start batch row s))"

text \<open>
  The \<^verbatim>\<open>"close"\<close> listener resolves with \<^verbatim>\<open>records\<close>. The interface closes when the
  listener called \<^verbatim>\<open>rl.close()\<close> or when the input ends; an \<^verbatim>\<open>"error"\<close> event has no
  listener. The \<^verbatim>\<open>catch\<close> block covers the creation of the stream only.
\<close>

definition readCSVInBatches ::
  "(string \<Rightarrow> 'r list) \<Rightarrow> file_system \<Rightarrow> string \<Rightarrow> int \<Rightarrow> int \<Rightarrow> 'r list promise" where
  "readCSVInBatches papa fs filePath start batch =
     (case fs filePath of
        ThrowsOnCreate \<Rightarrow> Rejected (''Failed reading file '' @ filePath)
      | Delivers rows e \<Rightarrow>
          (let s = read_lines papa start batch rows reader_init
           in if rl_closed s \<or> e = EndOfInput then Resolved (records s) else Unsettled))"

section \<open>The window over the data lines\<close>

definition in_window :: "int \<Rightarrow> int \<Rightarrow> int \<Rightarrow> bool" where
  "in_window start batch i = (start \<le> i \<and> i < start + batch)"

text \<open>\<open>window_from start batch k xs\<close> keeps the elements of \<open>xs\<close>, numbered from \<open>k\<close>,
  whose number lies in the half-open range from \<open>start\<close> to \<open>start + batch\<close>.\<close>

fun window_from :: "int \<Rightarrow> int \<Rightarrow> int \<Rightarrow> 'a list \<Rightarrow> 'a list" where
  "window_from start batch k [] = []"
| "window_from start batch k (x # xs) =
     (if in_window start batch k then x # window_from start batch (k + 1) xs
      else window_from start batch (k + 1) xs)"

definition window :: "int \<Rightarrow> int \<Rightarrow> 'a list \<Rightarrow> 'a list" where
  "window start batch xs = window_from start batch 0 xs"

text \<open>The header is the first line that is not empty, the data lines are the lines after it.\<close>

definition header_line :: "string list \<Rightarrow> string" where
  "header_line lines = (case dropWhile (\<lambda>l. l = []) lines of [] \<Rightarrow> [] | h # _ \<Rightarrow> h)"

definition data_lines :: "string list \<Rightarrow> string list" where
  "data_lines lines = (case dropWhile (\<lambda>l. l = []) lines of [] \<Rightarrow> [] | _ # rows \<Rightarrow> rows)"

text \<open>A reader that scans the whole file and keeps only the window: no early stop.\<close>

definition scan_whole_file :: "(string \<Rightarrow> 'r list) \<Rightarrow> int \<Rightarrow> int \<Rightarrow> string list \<Rightarrow> 'r list" where
  "scan_whole_file papa start batch lines =
     List.map_filter (csvToJson papa (header_line lines)) (window start batch (data_lines lines))"

text \<open>The same listener without the call of \<^verbatim>\<open>rl.close()\<close>, run over every line.\<close>

definition on_line_no_close ::
  "(string \<Rightarrow> 'r list) \<Rightarrow> int \<Rightarrow> int \<Rightarrow> string \<Rightarrow> 'r reader \<Rightarrow> 'r reader" where
  "on_line_no_close papa start batch row s =
     (if headers s = [] then s\<lparr>headers := row\<rparr>
      else
        (let s1 =
           (if recordCount s \<ge> start \<and> recordCount s < start + batch then
              (case csvToJson papa (headers s) row of
                 Some json \<Rightarrow> s\<lparr>records := records s @ [json]\<rparr>
               | None \<Rightarrow> s)
            else s)
         in s1\<lparr>recordCount := recordCount s1 + 1\<rparr>))"

definition read_all_lines :: "(string \<Rightarrow> 'r list) \<Rightarrow> int \<Rightarrow> int \<Rightarrow> string list \<Rightarrow> 'r list" where
  "read_all_lines papa start batch lines =
     records (fold (on_line_no_close papa start batch) lines reader_init)"

definition total_records :: "string list \<Rightarrow> int" where
  "total_records lines = int (length (data_lines lines))"

section \<open>getInitialDatasetInBatch\<close>

datatype APIKind = WFS | WMTS

record KoordinatesDataset =
  koordinatesHost :: string
  name :: string
  layerId :: int
  tableId :: int
  apiVersion :: string
  version :: string
  apiKind :: APIKind
  initialDataset :: string
  initialDatasetLocation :: string
  initialDatasetTs :: string
  hasChangesets :: bool
  hasSpatialInformation :: bool

text \<open>
  The calls that leave the process are written to a log, in the order in which the code
  makes them. The environment answers them: whether a path exists, whether a download
  fails (and with which reason), and what reading a path delivers. \<open>Mkdir\<close> carries the
  path and the line that the callback given to \<^verbatim>\<open>fs.mkdir\<close> writes to the console: the
  callback runs at a later time, which the method does not wait for, so its line has
  no place of its own in the log.
\<close>

datatype io_action =
    ExistsSync string
  | Mkdir string string
  | Fetch string
  | WriteStream string
  | Stat string
  | ReadStream string
  | ConsoleLog string

record environment =
  existsSync :: "string \<Rightarrow> bool"
  fetch_error :: "string \<Rightarrow> string option"
  createReadStream :: file_system

text \<open>
  \<^verbatim>\<open>waitForFile\<close> polls \<^verbatim>\<open>stat\<close> until the file is there or the timeout has passed and
  its result is not used: it is one \<open>Stat\<close> entry of the log.
\<close>

definition downloadInitialDatasetFromS3 ::
  "environment \<Rightarrow> KoordinatesDataset \<Rightarrow> string option \<times> io_action list" where
  "downloadInitialDatasetFromS3 env this =
     (let dir = ''./datasets'';
          log1 = ExistsSync dir #
                 (if \<not> existsSync env dir
                  then [Mkdir dir ''./datasets folder exists.''] else []);
          fn = ''./datasets/'' @ initialDataset this;
          log2 = log1 @ [ExistsSync fn]
      in if \<not> existsSync env fn then
           (let url = initialDatasetLocation this @ ''/'' @ initialDataset this;
                log3 = log2 @ [ConsoleLog ''started downloading...'', Fetch url]
            in case fetch_error env url of
                 Some err \<Rightarrow> (Some err, log3)
               | None \<Rightarrow> (None, log3 @ [WriteStream fn, Stat fn, ConsoleLog ''file written!'']))
         else (None, log2))"

fun map_promise :: "('a \<Rightarrow> 'b) \<Rightarrow> 'a promise \<Rightarrow> 'b promise" where
  "map_promise f (Resolved x) = Resolved (f x)"
| "map_promise f (Rejected m) = Rejected m"
| "map_promise f Unsettled = Unsettled"

text \<open>
  The result is the promise of the \<^verbatim>\<open>async\<close> method and the log of the calls made;
  \<open>Resolved None\<close> is the promise resolved with \<^verbatim>\<open>undefined\<close>.
\<close>

definition getInitialDatasetInBatch ::
  "(string \<Rightarrow> 'r list) \<Rightarrow> environment \<Rightarrow> KoordinatesDataset \<Rightarrow> int \<Rightarrow> int
     \<Rightarrow> 'r list option promise \<times> io_action list" where
  "getInitialDatasetInBatch papa env this start batch =
     (if apiKind this \<noteq> WFS then
        (Rejected ''Initial dataset is available for WFS (Web Feature Service) only.'', [])
      else if batch \<le> 0 \<or> batch > 100000 then
        (Rejected ''Batch size must be between 1 and 100000'', [])
      else if initialDataset this \<noteq> [] \<and> initialDatasetTs this \<noteq> [] then
        (case downloadInitialDatasetFromS3 env this of
           (Some err, log) \<Rightarrow> (Rejected err, log)
         | (None, log) \<Rightarrow>
             (let fn = ''./datasets/'' @ initialDataset this
              in (map_promise Some (readCSVInBatches papa (createReadStream env) fn start batch),
                  log @ [ReadStream fn])))
      else if initialDatasetTs this \<noteq> [] then
        (Resolved None, [ConsoleLog ''loading initial data from Koordinate website''])
      else (Rejected ''Initial dataset timestamp cannot be empty'', []))"

section \<open>The parser\<close>

text \<open>
  The quote character is the one of \<^verbatim>\<open>configObj\<close>, the line feed is the one that
  \<^verbatim>\<open>csvToJson\<close> puts between header and line, and the delimiter is the comma of the
  specification's files.
\<close>

definition quoteChar :: char where
  "quoteChar = CHR 0x22"

definition delimiter :: char where
  "delimiter = CHR '',''"

definition newline :: char where
  "newline = CHR 0x0A"

text \<open>
  Modelled from the spec: the cutting of a text into rows and fields by \<^verbatim>\<open>papa.parse\<close>
  of the papaparse package, which the source imports and which is not among the source
  files. The text is cut into rows at the line feeds and each row into fields at the
  delimiters; a quote character opens or closes a quoted field, inside which a
  delimiter or a line feed belongs to the field. \<open>q\<close> tells whether the scan is inside a
  quoted field, \<open>field\<close> and \<open>row\<close> hold what has been read of the current field and row.
\<close>

fun split_rows :: "bool \<Rightarrow> string \<Rightarrow> string list \<Rightarrow> string \<Rightarrow> string list list" where
  "split_rows q field row [] = [row @ [field]]"
| "split_rows q field row (c # cs) =
     (if c = quoteChar then split_rows (\<not> q) field row cs
      else if \<not> q \<and> c = delimiter then split_rows q [] (row @ [field]) cs
      else if \<not> q \<and> c = newline then (row @ [field]) # split_rows q [] [] cs
      else split_rows q (field @ [c]) row cs)"

text \<open>A record of the result: the field names with their values, in the order of the
  header.\<close>

type_synonym json_record = "(string \<times> string) list"

text \<open>
  Modelled from the spec: the list \<^verbatim>\<open>data\<close> of the result of \<^verbatim>\<open>papa.parse\<close> of the
  papaparse package (not among the source files), called with \<^verbatim>\<open>header: true\<close>. The
  first row gives the field names; every later row becomes a record that pairs the
  names with the fields of the row by position.
\<close>

definition papa_parse :: "string \<Rightarrow> json_record list" where
  "papa_parse text =
     (case split_rows False [] [] text of
        [] \<Rightarrow> []
      | names # rows \<Rightarrow> map (zip names) rows)"

text \<open>
  Modelled from the spec: the delimited fields of one line, where a delimiter inside a
  quoted field does not end the field; and whether a line ends inside a quoted field.
\<close>

fun line_fields :: "bool \<Rightarrow> string \<Rightarrow> string \<Rightarrow> string list" where
  "line_fields q field [] = [field]"
| "line_fields q field (c # cs) =
     (if c = quoteChar then line_fields (\<not> q) field cs
      else if \<not> q \<and> c = delimiter then field # line_fields q [] cs
      else line_fields q (field @ [c]) cs)"

fun ends_quoted :: "bool \<Rightarrow> string \<Rightarrow> bool" where
  "ends_quoted q [] = q"
| "ends_quoted q (c # cs) = ends_quoted (if c = quoteChar then \<not> q else q) cs"

section \<open>Example inputs\<close>

text \<open>A file system in which every path holds the given lines, read to the end, and one
  in which the input emits an \<^verbatim>\<open>"error"\<close> event after the given lines.\<close>

definition file_with_lines :: "string list \<Rightarrow> file_system" where
  "file_with_lines lines p = Delivers lines EndOfInput"

definition failing_file :: "string list \<Rightarrow> file_system" where
  "failing_file lines p = Delivers lines ErrorEvent"

definition never_exists :: "string \<Rightarrow> bool" where
  "never_exists p = False"

definition fetch_succeeds :: "string \<Rightarrow> string option" where
  "fetch_succeeds url = None"

text \<open>
  The dataset of the README, and an environment in which nothing is on disk yet, every
  download succeeds and the downloaded file holds a header and two data lines.
\<close>

definition nzAddresses :: KoordinatesDataset where
  "nzAddresses =
     \<lparr>koordinatesHost = ''https://data.linz.govt.nz'',
      name = ''NZ Addresses'',
      layerId = 105689,
      tableId = - 1,
      apiVersion = ''v1'',
      version = ''v2.0.0'',
      apiKind = WFS,
      initialDataset = ''nz-addresses.csv'',
      initialDatasetLocation = ''https://s3.ap-southeast-2.amazonaws.com/linz-datasets.zhiweiliu.com'',
      initialDatasetTs = ''2023-12-20T00:00:00Z'',
      hasChangesets = False,
      hasSpatialInformation = False\<rparr>"

definition first_run :: environment where
  "first_run =
     \<lparr>existsSync = never_exists,
      fetch_error = fetch_succeeds,
      createReadStream = file_with_lines [''id,name'', ''1,Alice'', ''2,Bob'']\<rparr>"

section \<open>Properties of the line listener\<close>

lemma fold_count_line: "fold count_line rows c = c + int (length rows)"
  by (induction rows arbitrary: c) (simp_all add: count_line_def)

lemma window_from_past: "start + batch \<le> k \<Longrightarrow> window_from start batch k xs = []"
  by (induction xs arbitrary: k) (simp_all add: in_window_def)

lemma on_line_headers:
  "headers s \<noteq> [] \<Longrightarrow> headers (on_line papa start batch row s) = headers s"
  by (simp add: on_line_def Let_def split: option.splits)

lemma on_line_closed:
  "headers s \<noteq> [] \<Longrightarrow> rl_closed (on_line papa start batch row s) \<Longrightarrow> \<not> rl_closed s
     \<Longrightarrow> start + batch \<le> recordCount s"
  by (simp add: on_line_def Let_def split: option.splits if_splits)

lemma on_line_count:
  "headers s \<noteq> [] \<Longrightarrow> recordCount (on_line papa start batch row s) = recordCount s + 1"
  by (simp add: on_line_def Let_def split: option.splits)

lemma on_line_records:
  "headers s \<noteq> [] \<Longrightarrow>
   records (on_line papa start batch row s) =
     records s @ (if in_window start batch (recordCount s)
                  then (case csvToJson papa (headers s) row of None \<Rightarrow> [] | Some j \<Rightarrow> [j])
                  else [])"
  by (simp add: on_line_def Let_def in_window_def split: option.splits)

lemma map_filter_Cons:
  "List.map_filter f (x # xs) = (case f x of None \<Rightarrow> [] | Some y \<Rightarrow> [y]) @ List.map_filter f xs"
  by (simp add: List.map_filter_def split: option.splits)

lemma read_lines_records:
  "headers s \<noteq> [] \<Longrightarrow> (rl_closed s \<longrightarrow> start + batch \<le> recordCount s) \<Longrightarrow>
   records (read_lines papa start batch rows s) =
     records s @ List.map_filter (csvToJson papa (headers s))
                   (window_from start batch (recordCount s) rows)"
proof (induction rows arbitrary: s)
  case Nil
  then show ?case by (simp add: List.map_filter_def)
next
  case (Cons row rows)
  show ?case
  proof (cases "rl_closed s")
    case True
    with Cons.prems have "start + batch \<le> recordCount s" by simp
    then have "window_from start batch (recordCount s) (row # rows) = []"
      by (rule window_from_past)
    with True show ?thesis by (simp add: List.map_filter_def)
  next
    case False
    let ?t = "on_line papa start batch row s"
    have h: "headers ?t = headers s" "headers ?t \<noteq> []"
      using Cons.prems(1) by (simp_all add: on_line_headers)
    have c: "recordCount ?t = recordCount s + 1"
      using Cons.prems(1) by (rule on_line_count)
    have inv: "rl_closed ?t \<longrightarrow> start + batch \<le> recordCount ?t"
      using on_line_closed [OF Cons.prems(1) _ False, of papa start batch row] c by auto
    have "records (read_lines papa start batch (row # rows) s)
            = records (read_lines papa start batch rows ?t)"
      using False by simp
    also have "\<dots> = records ?t @ List.map_filter (csvToJson papa (headers s))
                        (window_from start batch (recordCount s + 1) rows)"
      using Cons.IH [OF h(2) inv] h(1) c by simp
    finally show ?thesis
      using on_line_records [OF Cons.prems(1), of papa start batch row]
      by (simp add: map_filter_Cons List.map_filter_def split: option.splits)
  qed
qed

lemma on_line_blank: "on_line papa start batch [] reader_init = reader_init"
  by (simp add: on_line_def reader_init_def)

lemma read_lines_init:
  "records (read_lines papa start batch lines reader_init) = scan_whole_file papa start batch lines"
proof (induction lines)
  case Nil
  show ?case
    by (simp add: scan_whole_file_def data_lines_def window_def List.map_filter_def reader_init_def)
next
  case (Cons l ls)
  show ?case
  proof (cases "l = []")
    case True
    then show ?thesis
      using Cons.IH
      by (simp add: on_line_blank scan_whole_file_def header_line_def data_lines_def)
        (simp add: reader_init_def)
  next
    case False
    let ?s = "reader_init\<lparr>headers := l\<rparr> :: 'a reader"
    have s: "on_line papa start batch l reader_init = ?s"
      by (simp add: on_line_def reader_init_def)
    have "records (read_lines papa start batch ls ?s)
            = records ?s @ List.map_filter (csvToJson papa (headers ?s))
                             (window_from start batch (recordCount ?s) ls)"
      by (rule read_lines_records) (simp_all add: False reader_init_def)
    then show ?thesis
      using False s
      by (simp add: scan_whole_file_def header_line_def data_lines_def window_def reader_init_def)
  qed
qed

lemma no_close_headers:
  "headers s \<noteq> [] \<Longrightarrow> headers (on_line_no_close papa start batch row s) = headers s"
  by (simp add: on_line_no_close_def Let_def split: option.splits)

lemma no_close_count:
  "headers s \<noteq> [] \<Longrightarrow> recordCount (on_line_no_close papa start batch row s) = recordCount s + 1"
  by (simp add: on_line_no_close_def Let_def split: option.splits)

lemma no_close_records:
  "headers s \<noteq> [] \<Longrightarrow>
   records (on_line_no_close papa start batch row s) =
     records s @ (if in_window start batch (recordCount s)
                  then (case csvToJson papa (headers s) row of None \<Rightarrow> [] | Some j \<Rightarrow> [j])
                  else [])"
  by (simp add: on_line_no_close_def Let_def in_window_def split: option.splits)

lemma fold_no_close_records:
  "headers s \<noteq> [] \<Longrightarrow>
   records (fold (on_line_no_close papa start batch) rows s) =
     records s @ List.map_filter (csvToJson papa (headers s))
                   (window_from start batch (recordCount s) rows)"
proof (induction rows arbitrary: s)
  case Nil
  then show ?case by (simp add: List.map_filter_def)
next
  case (Cons row rows)
  let ?t = "on_line_no_close papa start batch row s"
  have h: "headers ?t = headers s" "headers ?t \<noteq> []"
    using Cons.prems by (simp_all add: no_close_headers)
  have c: "recordCount ?t = recordCount s + 1"
    using Cons.prems by (rule no_close_count)
  have "records (fold (on_line_no_close papa start batch) (row # rows) s)
          = records ?t @ List.map_filter (csvToJson papa (headers s))
                           (window_from start batch (recordCount s + 1) rows)"
    using Cons.IH [OF h(2)] h(1) c by simp
  then show ?case
    using no_close_records [OF Cons.prems, of papa start batch row]
    by (simp add: map_filter_Cons List.map_filter_def split: option.splits)
qed

lemma no_close_blank: "on_line_no_close papa start batch [] reader_init = reader_init"
  by (simp add: on_line_no_close_def reader_init_def)

lemma read_all_lines_scan:
  "read_all_lines papa start batch lines = scan_whole_file papa start batch lines"
proof (induction lines)
  case Nil
  show ?case
    by (simp add: read_all_lines_def scan_whole_file_def data_lines_def window_def
        List.map_filter_def reader_init_def)
next
  case (Cons l ls)
  show ?case
  proof (cases "l = []")
    case True
    then show ?thesis
      using Cons.IH
      by (simp add: read_all_lines_def no_close_blank scan_whole_file_def header_line_def
          data_lines_def)
  next
    case False
    let ?s = "reader_init\<lparr>headers := l\<rparr> :: 'a reader"
    have s: "on_line_no_close papa start batch l reader_init = ?s"
      by (simp add: on_line_no_close_def reader_init_def)
    have "records (fold (on_line_no_close papa start batch) ls ?s)
            = records ?s @ List.map_filter (csvToJson papa (headers ?s))
                             (window_from start batch (recordCount ?s) ls)"
      by (rule fold_no_close_records) (simp add: False)
    then show ?thesis
      using False s
      by (simp add: read_all_lines_def scan_whole_file_def header_line_def data_lines_def
          window_def reader_init_def)
  qed
qed

lemma window_from_take_drop:
  "window_from start batch k xs =
     take (nat (start + batch - max start k)) (drop (nat (start - k)) xs)"
proof (induction xs arbitrary: k)
  case Nil
  show ?case by simp
next
  case (Cons x xs)
  show ?case
  proof (cases "in_window start batch k")
    case True
    then have k: "start \<le> k" "k < start + batch" by (simp_all add: in_window_def)
    then have "nat (start + batch - max start k) = Suc (nat (start + batch - max start (k + 1)))"
      by (simp add: max_def) 
    with k show ?thesis using True Cons.IH [of "k + 1"] by (simp add: max_def)
  next
    case False
    show ?thesis
    proof (cases "k < start")
      case True
      then have "nat (start - k) = Suc (nat (start - (k + 1)))" by simp
      moreover have "max start (k + 1) = max start k" using True by simp
      ultimately show ?thesis using False Cons.IH [of "k + 1"] by simp
    next
      case ge: False
      with False have "start + batch \<le> k" by (simp add: in_window_def)
      then show ?thesis using ge False by (simp add: window_from_past max_def)
    qed
  qed
qed

lemma window_take_drop:
  "0 \<le> start \<Longrightarrow> window start batch xs = take (nat batch) (drop (nat start) xs)"
  by (simp add: window_def window_from_take_drop max_def)

lemma length_window:
  "0 \<le> start \<Longrightarrow> 0 \<le> batch \<Longrightarrow> 
   int (length (window start batch xs)) = max 0 (min batch (int (length xs) - start))"
  by (auto simp add: window_take_drop min_def max_def)

lemma length_map_filter_le: "length (List.map_filter f xs) \<le> length xs"
  by (simp add: List.map_filter_def)

lemma length_map_filter_eq:
  "\<forall>x\<in>set xs. f x \<noteq> None \<Longrightarrow> length (List.map_filter f xs) = length xs"
  by (induction xs) (auto simp add: List.map_filter_def)

lemma data_lines_length: "int (length (data_lines lines)) \<le> max 0 (int (length lines) - 1)"
proof -
  have "length (dropWhile (\<lambda>l. l = []) lines) \<le> length lines"
    by (rule length_dropWhile_le)
  then show ?thesis
    by (auto simp add: data_lines_def split: list.splits)
qed

lemma read_lines_keeps_headers:
  "headers s \<noteq> [] \<Longrightarrow> headers (read_lines papa start batch rows s) = headers s"
  by (induction rows arbitrary: s) (simp_all add: on_line_headers)

lemma read_lines_headers:
  "headers (read_lines papa start batch lines reader_init) = header_line lines"
proof (induction lines)
  case Nil
  show ?case by (simp add: header_line_def reader_init_def)
next
  case (Cons l ls)
  show ?case
  proof (cases "l = []")
    case True
    then show ?thesis using Cons.IH
      by (simp add: on_line_blank header_line_def) (simp add: reader_init_def)
  next
    case False
    have "on_line papa start batch l reader_init = reader_init\<lparr>headers := l\<rparr>"
      by (simp add: on_line_def reader_init_def)
    then show ?thesis
      using False read_lines_keeps_headers [of "reader_init\<lparr>headers := l\<rparr>" papa start batch ls]
      by (simp add: header_line_def reader_init_def)
  qed
qed

lemma read_lines_count_bound:
  "headers s \<noteq> [] \<Longrightarrow>
   recordCount (read_lines papa start batch rows s) \<le> recordCount s + int (length rows)"
proof (induction rows arbitrary: s)
  case Nil
  show ?case by simp
next
  case (Cons row rows)
  show ?case
  proof (cases "rl_closed s")
    case True
    then show ?thesis by simp
  next
    case False
    have "recordCount (read_lines papa start batch rows (on_line papa start batch row s))
            \<le> recordCount (on_line papa start batch row s) + int (length rows)"
      by (rule Cons.IH) (simp add: on_line_headers Cons.prems)
    then show ?thesis using False by (simp add: on_line_count Cons.prems)
  qed
qed

lemma read_lines_count:
  "recordCount (read_lines papa start batch lines reader_init) \<le> total_records lines"
proof (induction lines)
  case Nil
  show ?case by (simp add: total_records_def data_lines_def reader_init_def)
next
  case (Cons l ls)
  show ?case
  proof (cases "l = []")
    case True
    then show ?thesis using Cons.IH
      by (simp add: on_line_blank total_records_def data_lines_def) (simp add: reader_init_def)
  next
    case False
    have "on_line papa start batch l reader_init = reader_init\<lparr>headers := l\<rparr>"
      by (simp add: on_line_def reader_init_def)
    then show ?thesis
      using False read_lines_count_bound [of "reader_init\<lparr>headers := l\<rparr>" papa start batch ls]
      by (simp add: total_records_def data_lines_def reader_init_def)
  qed
qed

lemma header_first_line:
  "l \<noteq> [] \<Longrightarrow> header_line (l # rest) = l \<and> data_lines (l # rest) = rest"
  by (simp add: header_line_def data_lines_def)

lemma resolved_scan:
  "fs filePath = Delivers lines EndOfInput \<Longrightarrow>
   readCSVInBatches papa fs filePath start batch = Resolved (scan_whole_file papa start batch lines)"
  by (simp add: readCSVInBatches_def read_lines_init)

section \<open>Properties of the parser\<close>

lemma split_rows_one_line:
  "newline \<notin> set t \<Longrightarrow> split_rows q field row t = [row @ line_fields q field t]"
  by (induction t arbitrary: q field row) auto

lemma split_rows_first_line:
  "newline \<notin> set h \<Longrightarrow> \<not> ends_quoted q h \<Longrightarrow>
   split_rows q field row (h @ newline # t)
     = (row @ line_fields q field h) # split_rows False [] [] t"
proof (induction h arbitrary: q field row)
  case Nil
  then show ?case by (simp add: newline_def quoteChar_def delimiter_def)
next
  case (Cons c h)
  then show ?case by auto
qed

lemma split_rows_unclosed:
  "ends_quoted q h \<Longrightarrow> newline \<notin> set h \<Longrightarrow> newline \<notin> set t \<Longrightarrow>
   length (split_rows q field row (h @ newline # t)) = 1"
proof (induction h arbitrary: q field row)
  case Nil
  then show ?case by (simp add: newline_def quoteChar_def delimiter_def split_rows_one_line)
next
  case (Cons c h)
  then show ?case by auto
qed

lemma csvToJson_pairs:
  assumes "newline \<notin> set hdrs" "newline \<notin> set csv" "\<not> ends_quoted False hdrs"
  shows "csvToJson papa_parse hdrs csv
           = Some (zip (line_fields False [] hdrs) (line_fields False [] csv))"
proof -
  have "split_rows False [] [] (hdrs @ newline # csv)
          = line_fields False [] hdrs # [line_fields False [] csv]"
    using assms by (simp add: split_rows_first_line split_rows_one_line)
  then show ?thesis
    by (simp add: csvToJson_def papa_parse_def newline_def)
qed

lemma csvToJson_unclosed_header:
  assumes "ends_quoted False hdrs" "newline \<notin> set hdrs" "newline \<notin> set csv"
  shows "csvToJson papa_parse hdrs csv = None"
proof -
  have "length (split_rows False [] [] (hdrs @ newline # csv)) = 1"
    using assms by (rule split_rows_unclosed)
  then obtain names where "split_rows False [] [] (hdrs @ newline # csv) = [names]"
    by (cases "split_rows False [] [] (hdrs @ newline # csv)") auto
  then show ?thesis
    by (simp add: csvToJson_def papa_parse_def newline_def)
qed

section \<open>The count operation\<close>

text \<open>
  Claim C2. When the file is read to its end, \<^verbatim>\<open>getRecordCount\<close> resolves with the
  number of lines minus one if there is a line, and with 0 if there is none; the count
  of a file that is empty or has a header line only is 0, and the count is the number
  of lines after the first one, so the header line is never part of it.
\<close>

theorem getRecordCount_excludes_header:
  assumes "fs filePath = Delivers lines EndOfInput"
  shows "getRecordCount fs filePath
           = Resolved (if lines = [] then 0 else int (length lines) - 1)
         \<and> getRecordCount fs filePath = Resolved (int (length (tl lines)))
         \<and> (length lines \<le> 1 \<longrightarrow> getRecordCount fs filePath = Resolved 0)"
proof -
  have "getRecordCount fs filePath = Resolved (count_close (int (length lines)))"
    using assms by (simp add: getRecordCount_def fold_count_line)
  moreover have "count_close (int (length lines)) = int (length (tl lines))"
    by (cases lines) (simp_all add: count_close_def)
  ultimately show ?thesis by (cases lines) auto
qed

theorem getRecordCount_excludes_header_witness:
  "getRecordCount (file_with_lines [''id,name'', ''1,Alice'', ''2,Bob'']) ''a.csv'' = Resolved 2
   \<and> getRecordCount (file_with_lines [''id,name'']) ''a.csv'' = Resolved 0
   \<and> getRecordCount (file_with_lines []) ''a.csv'' = Resolved 0"
  using getRecordCount_excludes_header
          [of "file_with_lines [''id,name'', ''1,Alice'', ''2,Bob'']" "''a.csv''"
              "[''id,name'', ''1,Alice'', ''2,Bob'']"]
        getRecordCount_excludes_header
          [of "file_with_lines [''id,name'']" "''a.csv''" "[''id,name'']"]
        getRecordCount_excludes_header
          [of "file_with_lines []" "''a.csv''" "[]"]
  by (simp add: file_with_lines_def)

section \<open>The early stop\<close>

text \<open>
  Claim C4. Closing the line stream once the data-line index has reached
  \<open>start + batch\<close> does not change the result: for every file read to its end and
  every \<open>start\<close> and \<open>batch\<close>, \<^verbatim>\<open>readCSVInBatches\<close> resolves with the records of the
  reader that hands every line to the listener and never closes, and these are the
  parsed data lines whose index lies in the window from \<open>start\<close> to \<open>start + batch\<close>.
\<close>

theorem early_stop_same_records:
  assumes "fs filePath = Delivers lines EndOfInput"
  shows "readCSVInBatches papa fs filePath start batch
           = Resolved (read_all_lines papa start batch lines)
         \<and> read_all_lines papa start batch lines = scan_whole_file papa start batch lines"
  using assms by (simp add: readCSVInBatches_def read_lines_init read_all_lines_scan)

theorem early_stop_same_records_witness:
  "readCSVInBatches papa_parse
       (file_with_lines [''id,name'', ''1,Alice'', ''2,Bob'', ''3,Carol'', ''4,Dan''])
       ''a.csv'' 1 2
     = Resolved (read_all_lines papa_parse 1 2
                   [''id,name'', ''1,Alice'', ''2,Bob'', ''3,Carol'', ''4,Dan''])
   \<and> rl_closed (read_lines papa_parse 1 2
                   [''id,name'', ''1,Alice'', ''2,Bob'', ''3,Carol'', ''4,Dan''] reader_init)
   \<and> read_all_lines papa_parse 1 2 [''id,name'', ''1,Alice'', ''2,Bob'', ''3,Carol'', ''4,Dan'']
     = [[(''id'', ''2''), (''name'', ''Bob'')], [(''id'', ''3''), (''name'', ''Carol'')]]"
proof -
  have "rl_closed (read_lines papa_parse 1 2
          [''id,name'', ''1,Alice'', ''2,Bob'', ''3,Carol'', ''4,Dan''] reader_init)"
    by (simp add: reader_init_def on_line_def csvToJson_def papa_parse_def quoteChar_def
        delimiter_def newline_def)
  moreover have "read_all_lines papa_parse 1 2
      [''id,name'', ''1,Alice'', ''2,Bob'', ''3,Carol'', ''4,Dan'']
     = [[(''id'', ''2''), (''name'', ''Bob'')], [(''id'', ''3''), (''name'', ''Carol'')]]"
    by (simp add: read_all_lines_def reader_init_def on_line_no_close_def csvToJson_def
        papa_parse_def quoteChar_def delimiter_def newline_def)
  ultimately show ?thesis
    using early_stop_same_records
            [of "file_with_lines [''id,name'', ''1,Alice'', ''2,Bob'', ''3,Carol'', ''4,Dan'']"
                "''a.csv''" "[''id,name'', ''1,Alice'', ''2,Bob'', ''3,Carol'', ''4,Dan'']"
                papa_parse 1 2]
    by (simp add: file_with_lines_def)
qed

section \<open>The length of a batch\<close>

text \<open>
  Claim C1, as the code has it. For every file read to its end, \<open>start \<ge> 0\<close> and
  \<open>batch > 0\<close>, the call resolves with at most \<open>batch\<close> records, and with at most
  \<open>min batch (total_records - start)\<close> of them, clamped at 0, where \<open>total_records\<close>
  counts the lines after the header. The listener pushes a record only when
  \<^verbatim>\<open>csvToJson\<close> returns one (\<^verbatim>\<open>if (json != null)\<close>), so the length equals that number
  when every data line of the window yields a record.
\<close>

theorem batch_length:
  assumes "fs filePath = Delivers lines EndOfInput" and "0 \<le> start" and "0 < batch"
  shows "\<exists>rs. readCSVInBatches papa fs filePath start batch = Resolved rs
           \<and> int (length rs) \<le> batch
           \<and> int (length rs) \<le> max 0 (min batch (total_records lines - start))
           \<and> ((\<forall>row \<in> set (window start batch (data_lines lines)).
                  csvToJson papa (header_line lines) row \<noteq> None)
                \<longrightarrow> int (length rs) = max 0 (min batch (total_records lines - start)))"
proof -
  let ?w = "window start batch (data_lines lines)"
  let ?rs = "List.map_filter (csvToJson papa (header_line lines)) ?w"
  have r: "readCSVInBatches papa fs filePath start batch = Resolved ?rs"
    using assms(1) by (simp add: resolved_scan scan_whole_file_def)
  have w: "int (length ?w) = max 0 (min batch (total_records lines - start))"
    using assms(2,3) by (simp add: length_window total_records_def)
  have le: "int (length ?rs) \<le> int (length ?w)"
    using length_map_filter_le [of "csvToJson papa (header_line lines)" ?w] by simp
  have eq: "(\<forall>row \<in> set ?w. csvToJson papa (header_line lines) row \<noteq> None)
              \<longrightarrow> int (length ?rs) = int (length ?w)"
    by (simp add: length_map_filter_eq)
  have b: "int (length ?w) \<le> batch" using w assms(3) by simp
  show ?thesis using r w le eq b by (intro exI [of _ ?rs]) simp
qed

theorem batch_length_witness:
  "(\<exists>rs. readCSVInBatches papa_parse
            (file_with_lines [''id,name'', ''1,Alice'', ''2,Bob'', ''3,Carol'']) ''a.csv'' 1 5
          = Resolved rs \<and> int (length rs) = 2)
   \<and> total_records [''id,name'', ''1,Alice'', ''2,Bob'', ''3,Carol''] = 3"
proof -
  let ?lines = "[''id,name'', ''1,Alice'', ''2,Bob'', ''3,Carol'']"
  have d: "data_lines ?lines = [''1,Alice'', ''2,Bob'', ''3,Carol'']"
       "header_line ?lines = ''id,name''"
    by (simp_all add: data_lines_def header_line_def)
  have w: "window 1 5 [''1,Alice'', ''2,Bob'', ''3,Carol''] = [''2,Bob'', ''3,Carol'']"
    by (simp add: window_def in_window_def)
  have p: "\<forall>row \<in> set (window 1 5 (data_lines ?lines)).
             csvToJson papa_parse (header_line ?lines) row \<noteq> None"
    unfolding d w
    by (simp add: csvToJson_def papa_parse_def quoteChar_def delimiter_def newline_def)
  have t: "total_records ?lines = 3"
    by (simp add: total_records_def d)
  show ?thesis
    using batch_length [of "file_with_lines ?lines" "''a.csv''" ?lines 1 5 papa_parse] p t
    by (auto simp add: file_with_lines_def)
qed

text \<open>
  The claim as stated fails on a file whose header line opens a quoted field and never
  closes it: the line feed that \<^verbatim>\<open>csvToJson\<close> puts between header and line is then
  inside the quoted field, the text has a header row only, \<^verbatim>\<open>data[0]\<close> is undefined and
  the line is skipped. The file has one data line and the call returns no record.
\<close>

theorem batch_length_counterexample:
  "readCSVInBatches papa_parse
       (file_with_lines [''id,'' @ [quoteChar] @ ''name'', ''1,Alice'']) ''a.csv'' 0 10
     = Resolved []
   \<and> max 0 (min 10 (total_records [''id,'' @ [quoteChar] @ ''name'', ''1,Alice''] - 0)) = 1"
  by (simp add: readCSVInBatches_def file_with_lines_def reader_init_def on_line_def
      csvToJson_def papa_parse_def quoteChar_def delimiter_def newline_def
      total_records_def data_lines_def)

section \<open>The header line\<close>

text \<open>
  Claim C3, as the code has it. The listener takes a line as the header while
  \<^verbatim>\<open>headers == ""\<close>, so the header is the first line that is not empty: the first line of
  the file when that is not empty. The header and the lines before it are never counted
  as records and never parsed into the result, for any \<open>start\<close> and \<open>batch\<close>: the
  records are parsed from the lines after the header only, and these are lines after
  the first line of the file.
\<close>

theorem header_capture:
  "headers (read_lines papa start batch lines reader_init) = header_line lines
   \<and> recordCount (read_lines papa start batch lines reader_init) \<le> total_records lines
   \<and> readCSVInBatches papa (file_with_lines lines) filePath start batch
       = Resolved (List.map_filter (csvToJson papa (header_line lines))
                     (window start batch (data_lines lines)))
   \<and> (\<exists>before. tl lines = before @ data_lines lines)
   \<and> (\<forall>l rest. lines = l # rest \<and> l \<noteq> [] \<longrightarrow> header_line lines = l \<and> data_lines lines = rest)"
proof -
  have "\<exists>before. tl lines = before @ data_lines lines"
  proof (cases "dropWhile (\<lambda>l. l = []) lines")
    case Nil
    show ?thesis unfolding data_lines_def Nil by simp
  next
    case (Cons h rows)
    have "lines = takeWhile (\<lambda>l. l = []) lines @ h # rows"
      using takeWhile_dropWhile_id [of "\<lambda>l. l = []" lines] Cons by simp
    then have "tl lines = tl (takeWhile (\<lambda>l. l = []) lines @ [h]) @ rows"
      by (metis append.assoc append_Cons append_Nil snoc_eq_iff_butlast tl_append2)
    then show ?thesis using Cons by (auto simp add: data_lines_def)
  qed
  then show ?thesis
    by (simp add: read_lines_headers read_lines_count resolved_scan scan_whole_file_def
        file_with_lines_def header_first_line)
qed

theorem header_capture_witness:
  "headers (read_lines papa_parse 0 10 [''id,name'', ''1,Alice'', ''2,Bob''] reader_init)
     = ''id,name''
   \<and> readCSVInBatches papa_parse (file_with_lines [''id,name'', ''1,Alice'', ''2,Bob''])
        ''a.csv'' 0 10
     = Resolved [[(''id'', ''1''), (''name'', ''Alice'')], [(''id'', ''2''), (''name'', ''Bob'')]]
   \<and> data_lines [''id,name'', ''1,Alice'', ''2,Bob''] = [''1,Alice'', ''2,Bob'']"
proof -
  have d: "data_lines [''id,name'', ''1,Alice'', ''2,Bob''] = [''1,Alice'', ''2,Bob'']"
       "header_line [''id,name'', ''1,Alice'', ''2,Bob''] = ''id,name''"
    by (simp_all add: data_lines_def header_line_def)
  have w: "window 0 10 [''1,Alice'', ''2,Bob''] = [''1,Alice'', ''2,Bob'']"
    by (simp add: window_def in_window_def)
  have c: "csvToJson papa_parse ''id,name'' ''1,Alice'' = Some [(''id'', ''1''), (''name'', ''Alice'')]"
          "csvToJson papa_parse ''id,name'' ''2,Bob'' = Some [(''id'', ''2''), (''name'', ''Bob'')]"
    by (simp_all add: csvToJson_def papa_parse_def quoteChar_def delimiter_def newline_def)
  show ?thesis
    using header_capture [of papa_parse 0 10 "[''id,name'', ''1,Alice'', ''2,Bob'']" "''a.csv''"]
    by (simp add: d w c)
qed

text \<open>
  The claim as stated fails on a file whose first line is empty: the second line
  becomes the header, so of the two lines after the first one only one is counted as a
  record and returned.
\<close>

theorem header_capture_counterexample:
  "hd ['''', ''id,name'', ''1,Alice''] = ''''
   \<and> headers (read_lines papa_parse 0 10 ['''', ''id,name'', ''1,Alice''] reader_init)
       = ''id,name''
   \<and> recordCount (read_lines papa_parse 0 10 ['''', ''id,name'', ''1,Alice''] reader_init) = 1
   \<and> length (tl ['''', ''id,name'', ''1,Alice'']) = 2
   \<and> readCSVInBatches papa_parse (file_with_lines ['''', ''id,name'', ''1,Alice''])
        ''a.csv'' 0 10
       = Resolved [[(''id'', ''1''), (''name'', ''Alice'')]]"
  by (simp add: readCSVInBatches_def file_with_lines_def reader_init_def on_line_def
      csvToJson_def papa_parse_def quoteChar_def delimiter_def newline_def)

section \<open>A window beyond the data\<close>

text \<open>
  Claim C7. For every file read to its end and every \<open>start\<close> at or beyond the number
  of data lines, \<^verbatim>\<open>readCSVInBatches\<close> resolves with the empty sequence; this covers every
  \<open>start\<close> that is at least the number of lines minus one. For every \<open>start \<ge> 0\<close> the
  records are those of a contiguous slice of the data lines, in file order: the
  \<open>batch\<close> lines that follow the first \<open>start\<close> ones.
\<close>

theorem start_beyond_data:
  assumes "fs filePath = Delivers lines EndOfInput"
  shows "(total_records lines \<le> start
            \<longrightarrow> readCSVInBatches papa fs filePath start batch = Resolved [])
         \<and> (int (length lines) - 1 \<le> start \<and> 0 \<le> start
            \<longrightarrow> readCSVInBatches papa fs filePath start batch = Resolved [])
         \<and> (0 \<le> start
            \<longrightarrow> readCSVInBatches papa fs filePath start batch
                = Resolved (List.map_filter (csvToJson papa (header_line lines))
                              (take (nat batch) (drop (nat start) (data_lines lines)))))"
proof -
  have r: "0 \<le> start \<Longrightarrow> readCSVInBatches papa fs filePath start batch
             = Resolved (List.map_filter (csvToJson papa (header_line lines))
                           (take (nat batch) (drop (nat start) (data_lines lines))))"
    using assms by (simp add: resolved_scan scan_whole_file_def window_take_drop)
  have e: "total_records lines \<le> start
             \<Longrightarrow> readCSVInBatches papa fs filePath start batch = Resolved []"
  proof -
    assume t: "total_records lines \<le> start"
    then have "0 \<le> start" by (simp add: total_records_def)
    moreover have "length (data_lines lines) \<le> nat start"
      using t by (simp add: total_records_def)
    ultimately show ?thesis using r by (simp add: List.map_filter_def)
  qed
  have "int (length lines) - 1 \<le> start \<Longrightarrow> 0 \<le> start \<Longrightarrow> total_records lines \<le> start"
    using data_lines_length [of lines] by (simp add: total_records_def)
  with r e show ?thesis by blast
qed

theorem start_beyond_data_witness:
  "readCSVInBatches papa_parse (file_with_lines [''id,name'', ''1,Alice'', ''2,Bob''])
     ''a.csv'' 2 10 = Resolved []
   \<and> total_records [''id,name'', ''1,Alice'', ''2,Bob''] = 2"
proof -
  have "total_records [''id,name'', ''1,Alice'', ''2,Bob''] = 2"
    by (simp add: total_records_def data_lines_def)
  then show ?thesis
    using start_beyond_data
            [of "file_with_lines [''id,name'', ''1,Alice'', ''2,Bob'']" "''a.csv''"
                "[''id,name'', ''1,Alice'', ''2,Bob'']" 2 papa_parse 10]
    by (simp add: file_with_lines_def)
qed

section \<open>The scenarios of the specification\<close>

text \<open>
  Claim C8. For the file with the header line \<open>id,name\<close> and the two data lines
  \<open>1,Alice\<close> and \<open>2,Bob\<close>, the call with start 0 and batch 1 returns exactly the record
  with id 1 and name Alice, the call with start 1 and batch 10 returns exactly the
  record with id 2 and name Bob, and the count operation returns 2.
\<close>

theorem two_data_lines_scenario:
  "readCSVInBatches papa_parse (file_with_lines [''id,name'', ''1,Alice'', ''2,Bob''])
       ''a.csv'' 0 1
     = Resolved [[(''id'', ''1''), (''name'', ''Alice'')]]
   \<and> readCSVInBatches papa_parse (file_with_lines [''id,name'', ''1,Alice'', ''2,Bob''])
       ''a.csv'' 1 10
     = Resolved [[(''id'', ''2''), (''name'', ''Bob'')]]
   \<and> getRecordCount (file_with_lines [''id,name'', ''1,Alice'', ''2,Bob'']) ''a.csv''
     = Resolved 2"
  by (simp add: readCSVInBatches_def getRecordCount_def file_with_lines_def reader_init_def
      on_line_def csvToJson_def papa_parse_def quoteChar_def delimiter_def newline_def
      count_line_def count_close_def)

text \<open>
  Claim C9, as the parser has it. A quoted field that contains the delimiter is one
  field: for the header \<open>id,note\<close> and the data line \<open>1,"a,b"\<close>, \<^verbatim>\<open>csvToJson\<close> and with it
  \<^verbatim>\<open>readCSVInBatches\<close> yield the record with id 1 and note \<open>a,b\<close>. When the quoted
  fields of the header line are closed, a data line is parsed by pairing the delimited
  fields of the header with the delimited fields of the line, by position, where a
  delimiter inside quotes does not end a field. When the header line ends inside a
  quoted field, the line feed between header and line belongs to that field and
  \<^verbatim>\<open>csvToJson\<close> returns no record for any data line.
\<close>

theorem quoted_field_is_one_field:
  "csvToJson papa_parse ''id,note'' (''1,'' @ [quoteChar] @ ''a,b'' @ [quoteChar])
     = Some [(''id'', ''1''), (''note'', ''a,b'')]
   \<and> readCSVInBatches papa_parse
       (file_with_lines [''id,note'', ''1,'' @ [quoteChar] @ ''a,b'' @ [quoteChar]])
       ''a.csv'' 0 10
     = Resolved [[(''id'', ''1''), (''note'', ''a,b'')]]
   \<and> (newline \<notin> set hdrs \<and> newline \<notin> set csv \<and> \<not> ends_quoted False hdrs
      \<longrightarrow> csvToJson papa_parse hdrs csv
          = Some (zip (line_fields False [] hdrs) (line_fields False [] csv)))
   \<and> (newline \<notin> set hdrs \<and> newline \<notin> set csv \<and> ends_quoted False hdrs
      \<longrightarrow> csvToJson papa_parse hdrs csv = None)"
proof -
  have "csvToJson papa_parse ''id,note'' (''1,'' @ [quoteChar] @ ''a,b'' @ [quoteChar])
          = Some [(''id'', ''1''), (''note'', ''a,b'')]"
    by (simp add: csvToJson_def papa_parse_def quoteChar_def delimiter_def newline_def)
  moreover have "readCSVInBatches papa_parse
       (file_with_lines [''id,note'', ''1,'' @ [quoteChar] @ ''a,b'' @ [quoteChar]])
       ''a.csv'' 0 10
     = Resolved [[(''id'', ''1''), (''note'', ''a,b'')]]"
    by (simp add: readCSVInBatches_def file_with_lines_def reader_init_def on_line_def
        csvToJson_def papa_parse_def quoteChar_def delimiter_def newline_def)
  ultimately show ?thesis
    by (simp add: csvToJson_pairs csvToJson_unclosed_header)
qed

theorem quoted_field_is_one_field_witness:
  "newline \<notin> set ''id,note,city''
   \<and> newline \<notin> set (''7,'' @ [quoteChar] @ ''x,y'' @ [quoteChar] @ '',Hamilton'')
   \<and> \<not> ends_quoted False ''id,note,city''
   \<and> csvToJson papa_parse ''id,note,city''
        (''7,'' @ [quoteChar] @ ''x,y'' @ [quoteChar] @ '',Hamilton'')
     = Some [(''id'', ''7''), (''note'', ''x,y''), (''city'', ''Hamilton'')]
   \<and> newline \<notin> set (''id,'' @ [quoteChar] @ ''city'')
   \<and> newline \<notin> set ''7,Hamilton''
   \<and> ends_quoted False (''id,'' @ [quoteChar] @ ''city'')
   \<and> csvToJson papa_parse (''id,'' @ [quoteChar] @ ''city'') ''7,Hamilton'' = None"
proof -
  have f: "line_fields False [] ''id,note,city'' = [''id'', ''note'', ''city'']"
          "line_fields False [] (''7,'' @ [quoteChar] @ ''x,y'' @ [quoteChar] @ '',Hamilton'')
             = [''7'', ''x,y'', ''Hamilton'']"
    by (simp_all add: quoteChar_def delimiter_def)
  have h: "newline \<notin> set ''id,note,city''"
          "newline \<notin> set (''7,'' @ [quoteChar] @ ''x,y'' @ [quoteChar] @ '',Hamilton'')"
          "\<not> ends_quoted False ''id,note,city''"
    by (simp_all add: newline_def quoteChar_def)
  have u: "newline \<notin> set (''id,'' @ [quoteChar] @ ''city'')"
          "newline \<notin> set ''7,Hamilton''"
          "ends_quoted False (''id,'' @ [quoteChar] @ ''city'')"
    by (simp_all add: newline_def quoteChar_def)
  let ?csv = "''7,'' @ [quoteChar] @ ''x,y'' @ [quoteChar] @ '',Hamilton''"
  let ?open = "''id,'' @ [quoteChar] @ ''city''"
  have "newline \<notin> set ''id,note,city'' \<and> newline \<notin> set ?csv
          \<and> \<not> ends_quoted False ''id,note,city''
        \<longrightarrow> csvToJson papa_parse ''id,note,city'' ?csv
            = Some (zip (line_fields False [] ''id,note,city'') (line_fields False [] ?csv))"
    using quoted_field_is_one_field [of "''id,note,city''" ?csv] by blast
  with h have "csvToJson papa_parse ''id,note,city'' ?csv
      = Some (zip (line_fields False [] ''id,note,city'') (line_fields False [] ?csv))"
    by blast
  then have c: "csvToJson papa_parse ''id,note,city'' ?csv
      = Some [(''id'', ''7''), (''note'', ''x,y''), (''city'', ''Hamilton'')]"
    unfolding f by simp
  have "newline \<notin> set ?open \<and> newline \<notin> set ''7,Hamilton'' \<and> ends_quoted False ?open
        \<longrightarrow> csvToJson papa_parse ?open ''7,Hamilton'' = None"
    using quoted_field_is_one_field [of ?open "''7,Hamilton''"] by blast
  with u have n: "csvToJson papa_parse ?open ''7,Hamilton'' = None"
    by blast
  from h u c n show ?thesis by blast
qed

text \<open>
  The claim as stated fails for a header line that opens a quoted field and never
  closes it: pairing the fields of the header with the fields of the line would give a
  record, and \<^verbatim>\<open>csvToJson\<close> returns none.
\<close>

theorem quoted_field_counterexample:
  "zip (line_fields False [] (''id,'' @ [quoteChar] @ ''note''))
       (line_fields False [] ''1,x'')
     = [(''id'', ''1''), (''note'', ''x'')]
   \<and> csvToJson papa_parse (''id,'' @ [quoteChar] @ ''note'') ''1,x'' = None"
  by (simp add: csvToJson_def papa_parse_def quoteChar_def delimiter_def newline_def)

section \<open>Failures of the input\<close>

text \<open>
  Claim C5, evaluated on the code. The \<^verbatim>\<open>catch\<close> block that rejects with
  \<^verbatim>\<open>Failed reading file\<close> and the path covers the statements that create the stream and
  register the listeners. A file that cannot be opened, or an error in the middle of
  the stream, arrives later as an \<^verbatim>\<open>"error"\<close> event, for which no listener is
  registered: the promise of \<^verbatim>\<open>readCSVInBatches\<close> and of \<^verbatim>\<open>getRecordCount\<close> is then
  neither rejected nor resolved.
\<close>

theorem stream_error_not_rejected:
  "readCSVInBatches papa_parse (failing_file []) ''./datasets/missing.csv'' 0 10 = Unsettled
   \<and> getRecordCount (failing_file []) ''./datasets/missing.csv'' = Unsettled
   \<and> readCSVInBatches papa_parse (failing_file [''id,name'', ''1,Alice''])
       ''./datasets/a.csv'' 0 10 = Unsettled
   \<and> getRecordCount (failing_file [''id,name'', ''1,Alice'']) ''./datasets/a.csv'' = Unsettled"
  by (simp add: readCSVInBatches_def getRecordCount_def failing_file_def reader_init_def
      on_line_def csvToJson_def papa_parse_def quoteChar_def delimiter_def newline_def)

section \<open>The guards of getInitialDatasetInBatch\<close>

text \<open>
  Claim C6. For every batch that is at most 0 or greater than 100000, and for every
  start, dataset and environment, \<^verbatim>\<open>getInitialDatasetInBatch\<close> rejects with an error and
  has made no call to the file system or the network: the log is empty.
\<close>

theorem invalid_batch_rejected:
  assumes "batch \<le> 0 \<or> batch > 100000"
  shows "getInitialDatasetInBatch papa env this start batch
           = (Rejected (if apiKind this \<noteq> WFS
                        then ''Initial dataset is available for WFS (Web Feature Service) only.''
                        else ''Batch size must be between 1 and 100000''), [])"
  using assms by (simp add: getInitialDatasetInBatch_def)

theorem invalid_batch_rejected_witness:
  "getInitialDatasetInBatch papa_parse first_run nzAddresses 0 100001
     = (Rejected ''Batch size must be between 1 and 100000'', [])
   \<and> getInitialDatasetInBatch papa_parse first_run nzAddresses 5 0
     = (Rejected ''Batch size must be between 1 and 100000'', [])"
  using invalid_batch_rejected [of 100001 papa_parse first_run nzAddresses 0]
        invalid_batch_rejected [of 0 papa_parse first_run nzAddresses 5]
  by (simp add: nzAddresses_def)

text \<open>
  With a valid batch the same call does reach the file system and the network: on a
  first run it looks for the folder and the file, downloads the file, waits for it and
  reads it.
\<close>

lemma valid_batch_downloads_and_reads:
  "getInitialDatasetInBatch papa_parse first_run nzAddresses 0 1
     = (Resolved (Some [[(''id'', ''1''), (''name'', ''Alice'')]]),
        [ExistsSync ''./datasets'', Mkdir ''./datasets'' ''./datasets folder exists.'',
         ExistsSync ''./datasets/nz-addresses.csv'',
         ConsoleLog ''started downloading...'',
         Fetch ''https://s3.ap-southeast-2.amazonaws.com/linz-datasets.zhiweiliu.com/nz-addresses.csv'',
         WriteStream ''./datasets/nz-addresses.csv'', Stat ''./datasets/nz-addresses.csv'',
         ConsoleLog ''file written!'', ReadStream ''./datasets/nz-addresses.csv''])"
proof -
  have d: "downloadInitialDatasetFromS3 first_run nzAddresses
      = (None,
         [ExistsSync ''./datasets'', Mkdir ''./datasets'' ''./datasets folder exists.'',
          ExistsSync ''./datasets/nz-addresses.csv'',
          ConsoleLog ''started downloading...'',
          Fetch ''https://s3.ap-southeast-2.amazonaws.com/linz-datasets.zhiweiliu.com/nz-addresses.csv'',
          WriteStream ''./datasets/nz-addresses.csv'', Stat ''./datasets/nz-addresses.csv'',
          ConsoleLog ''file written!''])"
    by (simp add: downloadInitialDatasetFromS3_def Let_def first_run_def nzAddresses_def
        never_exists_def fetch_succeeds_def)
  have r: "readCSVInBatches papa_parse (createReadStream first_run)
             ''./datasets/nz-addresses.csv'' 0 1
      = Resolved [[(''id'', ''1''), (''name'', ''Alice'')]]"
    by (simp add: readCSVInBatches_def first_run_def file_with_lines_def reader_init_def
        on_line_def csvToJson_def papa_parse_def quoteChar_def delimiter_def newline_def)
  have n: "initialDataset nzAddresses = ''nz-addresses.csv''"
          "initialDatasetTs nzAddresses \<noteq> []" "apiKind nzAddresses = WFS"
    by (simp_all add: nzAddresses_def)
  show ?thesis
    using r n by (simp add: getInitialDatasetInBatch_def d Let_def)
qed

text \<open>
  Claim C10, as the code has it. For a WFS dataset and a valid batch: when the dataset
  name is empty and the timestamp is not, the call makes no call to the file system or
  the network, writes one line to the console and resolves with \<^verbatim>\<open>undefined\<close>; and it
  throws the timestamp error exactly when the timestamp is empty, whether the dataset
  name is empty or not.
\<close>

theorem timestamp_guard:
  assumes "apiKind this = WFS" and "0 < batch" and "batch \<le> 100000"
  shows "(initialDataset this = [] \<and> initialDatasetTs this \<noteq> []
            \<longrightarrow> getInitialDatasetInBatch papa env this start batch
                = (Resolved None, [ConsoleLog ''loading initial data from Koordinate website'']))
         \<and> (getInitialDatasetInBatch papa env this start batch
              = (Rejected ''Initial dataset timestamp cannot be empty'', [])
            \<longleftrightarrow> initialDatasetTs this = [])"
proof -
  have "snd (downloadInitialDatasetFromS3 env this) \<noteq> []"
    by (simp add: downloadInitialDatasetFromS3_def Let_def split: option.splits)
  then show ?thesis
    using assms
    by (auto simp add: getInitialDatasetInBatch_def Let_def split: prod.splits option.splits)
qed

theorem timestamp_guard_witness:
  "getInitialDatasetInBatch papa_parse first_run (nzAddresses\<lparr>initialDataset := []\<rparr>) 0 10
     = (Resolved None, [ConsoleLog ''loading initial data from Koordinate website''])
   \<and> getInitialDatasetInBatch papa_parse first_run
       (nzAddresses\<lparr>initialDataset := [], initialDatasetTs := []\<rparr>) 0 10
     = (Rejected ''Initial dataset timestamp cannot be empty'', [])"
  using timestamp_guard [of "nzAddresses\<lparr>initialDataset := []\<rparr>" 10 papa_parse first_run 0]
        timestamp_guard [of "nzAddresses\<lparr>initialDataset := [], initialDatasetTs := []\<rparr>" 10
                            papa_parse first_run 0]
  by (simp add: nzAddresses_def)

text \<open>
  The claim as stated fails on a dataset that has a name and no timestamp: the
  timestamp error is thrown although the dataset name is not empty.
\<close>

theorem timestamp_guard_counterexample:
  "initialDataset (nzAddresses\<lparr>initialDatasetTs := []\<rparr>) = ''nz-addresses.csv''
   \<and> initialDatasetTs (nzAddresses\<lparr>initialDatasetTs := []\<rparr>) = []
   \<and> getInitialDatasetInBatch papa_parse first_run (nzAddresses\<lparr>initialDatasetTs := []\<rparr>) 0 10
     = (Rejected ''Initial dataset timestamp cannot be empty'', [])"
  by (simp add: getInitialDatasetInBatch_def nzAddresses_def)

end
